theory Spec2Isabelle
  imports Main "HOL-Library.Sublist"
begin

section \<open>Parameter validation of the databento client\<close>

text \<open>
  The development embeds \<^verbatim>\<open>databento/common/validation.py\<close>: the three functions
  \<^verbatim>\<open>validate_enum\<close>, \<^verbatim>\<open>validate_maybe_enum\<close> and \<^verbatim>\<open>validate_gateway\<close>, together with
  the parts of the Python runtime they call (\<^verbatim>\<open>Enum\<close> lookup by value, \<^verbatim>\<open>repr\<close> of a
  string and of a tuple, \<^verbatim>\<open>urllib.parse.urlsplit\<close> and \<^verbatim>\<open>urlunsplit\<close>).

  Python strings are lists of code points; here a character is a code point below 256.
  The URL functions look only at ASCII characters and at whether a character is ASCII,
  so their definitions describe them as well on a string written as its UTF-8 bytes;
  what the parser decides from tables outside the embedded code (the Unicode database,
  the \<^verbatim>\<open>ipaddress\<close> module) is a parameter of the model.
  Every raise of the source is a value \<open>Inl (ValueError msg)\<close>; the specification calls
  this error kind \<^verbatim>\<open>InvalidParameter\<close>, the code raises \<^verbatim>\<open>ValueError\<close>.
\<close>

datatype error = ValueError string

subsection \<open>Characters the source names\<close>

definition squote :: char where "squote = CHR 0x27"
definition dquote :: char where "dquote = CHR 0x22"
definition backslash :: char where "backslash = CHR 0x5C"
definition backtick :: char where "backtick = CHR 0x60"

subsection \<open>\<^verbatim>\<open>repr\<close> of a string and of a tuple of strings\<close>

text \<open>
  \<^verbatim>\<open>str.isprintable\<close> on one code point below 256: the ASCII range from space to tilde
  and the Latin-1 range from 0xA1, the soft hyphen 0xAD apart.
\<close>

definition isprintable :: "char \<Rightarrow> bool" where
  "isprintable c = (let n = (of_char c :: nat) in
     (32 \<le> n \<and> n < 127) \<or> (161 \<le> n \<and> n \<noteq> 173))"

definition hex_digit :: "nat \<Rightarrow> char" where
  "hex_digit n = (if n < 10 then char_of (48 + n) else char_of (87 + n))"

text \<open>One character of \<^verbatim>\<open>repr(s)\<close>, given the quote character chosen for the literal.\<close>

definition repr_char :: "char \<Rightarrow> char \<Rightarrow> string" where
  "repr_char q c =
     (if c = q \<or> c = backslash then [backslash, c]
      else if c = CHR 0x09 then [backslash, CHR ''t'']
      else if c = CHR 0x0A then [backslash, CHR ''n'']
      else if c = CHR 0x0D then [backslash, CHR ''r'']
      else if isprintable c then [c]
      else [backslash, CHR ''x'',
            hex_digit ((of_char c :: nat) div 16), hex_digit ((of_char c :: nat) mod 16)])"

text \<open>
  \<^verbatim>\<open>repr(s)\<close>: single quotes, unless the string holds a single quote and no double
  quote.
\<close>

definition py_repr :: "string \<Rightarrow> string" where
  "py_repr s = (let q = (if squote \<in> set s \<and> dquote \<notin> set s then dquote else squote) in
     [q] @ concat (map (repr_char q) s) @ [q])"

fun join :: "string \<Rightarrow> string list \<Rightarrow> string" where
  "join sep [] = []"
| "join sep [x] = x"
| "join sep (x # y # ys) = x @ sep @ join sep (y # ys)"

text \<open>\<^verbatim>\<open>repr\<close> of a tuple of strings; a tuple of one element ends with a comma.\<close>

definition tuple_repr :: "string list \<Rightarrow> string" where
  "tuple_repr xs = (case xs of
       [x] \<Rightarrow> ''('' @ py_repr x @ '',)''
     | _ \<Rightarrow> ''('' @ join '', '' (map py_repr xs) @ '')'')"

subsection \<open>Enum types\<close>

text \<open>
  The enum declarations of the library are not part of the embedded file, so an enum
  class is a parameter: its name, its members in definition order (aliases excluded, as
  iteration over the class yields them), the value of each member (what
  \<^verbatim>\<open>enum(value)\<close> looks up) and the string \<^verbatim>\<open>str(member)\<close> returns. The type \<open>'m\<close> is the
  type of the class's instances. Python keeps members with equal values as one member,
  so the values of the listed members are distinct.
\<close>

record 'm enum_type =
  cls_name :: string
  members :: "'m list"
  value_of :: "'m \<Rightarrow> string"
  str_of :: "'m \<Rightarrow> string"

definition wf_enum :: "'m enum_type \<Rightarrow> bool" where
  "wf_enum E = distinct (map (value_of E) (members E))"

text \<open>
  The canonical string representation of a member is the string \<^verbatim>\<open>str(member)\<close> returns:
  these are the strings the error message lists. In an enum type whose \<^verbatim>\<open>str\<close> returns the
  member's value, as a string enum that overrides \<^verbatim>\<open>__str__\<close> does, the canonical string
  is also what \<^verbatim>\<open>enum(value)\<close> looks up. A plain Python \<^verbatim>\<open>Enum\<close>, whose \<^verbatim>\<open>str\<close> is
  \<^verbatim>\<open>Class.NAME\<close>, is not of this kind.
\<close>

definition canonical_enum :: "'m enum_type \<Rightarrow> bool" where
  "canonical_enum E =
     (wf_enum E \<and> list_all (\<lambda>m. str_of E m = value_of E m) (members E))"

text \<open>
  The value handed to the validator: an instance of the enum class or a string
  (\<^verbatim>\<open>Union[E, str]\<close> in the source's annotations).
\<close>

datatype 'm pyvalue = Member 'm | Str string

text \<open>
  \<^verbatim>\<open>enum(value)\<close>: an instance of the class is returned as it is; anything else is
  looked up among the members' values, and \<^verbatim>\<open>ValueError\<close> is raised when no member has
  that value.
\<close>

definition enum_call :: "'m enum_type \<Rightarrow> 'm pyvalue \<Rightarrow> error + 'm" where
  "enum_call E v = (case v of
       Member m \<Rightarrow> Inr m
     | Str s \<Rightarrow> (case find (\<lambda>m. value_of E m = s) (members E) of
           Some m \<Rightarrow> Inr m
         | None \<Rightarrow> Inl (ValueError (py_repr s @ '' is not a valid '' @ cls_name E))))"

text \<open>What an f-string renders for \<^verbatim>\<open>{value}\<close> and for \<^verbatim>\<open>{enum}\<close>.\<close>

definition format_value :: "'m enum_type \<Rightarrow> 'm pyvalue \<Rightarrow> string" where
  "format_value E v = (case v of Str s \<Rightarrow> s | Member m \<Rightarrow> str_of E m)"

definition format_enum :: "'m enum_type \<Rightarrow> string" where
  "format_enum E = ''<enum '' @ [squote] @ cls_name E @ [squote] @ ''>''"

definition enum_error_message :: "string \<Rightarrow> string \<Rightarrow> string \<Rightarrow> string list \<Rightarrow> string" where
  "enum_error_message param enum_s value_s valid =
     ''The '' @ [backtick] @ param @ [backtick] @ '' was not a valid value of '' @ enum_s
     @ '', was '' @ [squote] @ value_s @ [squote] @ ''. ''
     @ ''Use any of '' @ tuple_repr valid @ ''.''"

definition validate_enum :: "'m pyvalue \<Rightarrow> 'm enum_type \<Rightarrow> string \<Rightarrow> error + 'm" where
  "validate_enum v E param = (case enum_call E v of
       Inr m \<Rightarrow> Inr m
     | Inl (ValueError exc) \<Rightarrow>
         (let valid = map (str_of E) (members E) in
          Inl (ValueError
            (enum_error_message param (format_enum E) (format_value E v) valid))))"

definition validate_maybe_enum ::
    "'m pyvalue option \<Rightarrow> 'm enum_type \<Rightarrow> string \<Rightarrow> error + 'm option" where
  "validate_maybe_enum v E param = (case v of
       None \<Rightarrow> Inr None
     | Some x \<Rightarrow> (case validate_enum x E param of
           Inl e \<Rightarrow> Inl e
         | Inr m \<Rightarrow> Inr (Some m)))"

subsection \<open>\<^verbatim>\<open>urllib.parse.urlsplit\<close>\<close>

record split_result =
  scheme :: string
  netloc :: string
  path :: string
  query :: string
  fragment :: string

definition c0_control_or_space :: "char \<Rightarrow> bool" where
  "c0_control_or_space c = ((of_char c :: nat) \<le> 32)"

definition unsafe_byte :: "char \<Rightarrow> bool" where
  "unsafe_byte c = (c = CHR 0x09 \<or> c = CHR 0x0D \<or> c = CHR 0x0A)"

definition ascii_alpha :: "char \<Rightarrow> bool" where
  "ascii_alpha c = (let n = (of_char c :: nat) in
     (65 \<le> n \<and> n \<le> 90) \<or> (97 \<le> n \<and> n \<le> 122))"

definition scheme_char :: "char \<Rightarrow> bool" where
  "scheme_char c = (let n = (of_char c :: nat) in
     ascii_alpha c \<or> (48 \<le> n \<and> n \<le> 57) \<or> c = CHR ''+'' \<or> c = CHR ''-'' \<or> c = CHR ''.'')"

definition lower_char :: "char \<Rightarrow> char" where
  "lower_char c = (let n = (of_char c :: nat) in
     if 65 \<le> n \<and> n \<le> 90 then char_of (n + 32) else c)"

text \<open>
  The scheme: with \<open>i\<close> the index of the first colon, a scheme is split off when
  \<open>i > 0\<close>, the first character is an ASCII letter and every character before the colon
  is a scheme character. The result is the (lowered) scheme and the rest of the URL.
\<close>

definition split_scheme :: "string \<Rightarrow> string \<times> string" where
  "split_scheme url = (let pre = takeWhile (\<lambda>c. c \<noteq> CHR '':'') url in
     (case url of
        [] \<Rightarrow> ([], url)
      | c # cs \<Rightarrow>
          if length pre < length url \<and> pre \<noteq> [] \<and> ascii_alpha c \<and> list_all scheme_char pre
          then (map lower_char pre, drop (length pre + 1) url)
          else ([], url)))"

definition netloc_delim :: "char \<Rightarrow> bool" where
  "netloc_delim c = (c = CHR ''/'' \<or> c = CHR ''?'' \<or> c = CHR ''#'')"

text \<open>\<^verbatim>\<open>_splitnetloc(url, start)\<close>: the authority runs from \<open>start\<close> to the first of \<^verbatim>\<open>/?#\<close>.\<close>

definition splitnetloc :: "string \<Rightarrow> nat \<Rightarrow> string \<times> string" where
  "splitnetloc url start =
     (takeWhile (\<lambda>c. \<not> netloc_delim c) (drop start url),
      dropWhile (\<lambda>c. \<not> netloc_delim c) (drop start url))"

text \<open>\<^verbatim>\<open>s.split(c, 1)\<close> for a string that holds \<open>c\<close>.\<close>

definition split_once :: "char \<Rightarrow> string \<Rightarrow> string \<times> string" where
  "split_once c s = (takeWhile (\<lambda>x. x \<noteq> c) s, drop 1 (dropWhile (\<lambda>x. x \<noteq> c) s))"

text \<open>
  Two checks of the authority rest on tables that are not part of the embedded code, and
  are parameters of the model; each is given the authority and returns the error it
  raises, if any.
  \<^item> \<open>bracketed_check\<close>: CPython from 3.11.4 on validates an authority that holds both
    square brackets: the host between them must be an IPv6 or IPvFuture literal, which
    the \<^verbatim>\<open>ipaddress\<close> module decides. Earlier versions have no such check.
  \<^item> \<open>nfkc_check\<close>: for an authority that is not ASCII, \<^verbatim>\<open>_checknetloc\<close> removes the
    characters \<^verbatim>\<open>@:#?\<close>, takes the NFKC normal form and raises when the form differs and
    holds one of \<^verbatim>\<open>/?#@:\<close>. (The character U+2100 is rejected this way; no code point
    below 256 is.)

  Every statement below holds for all values of the two parameters.
\<close>

record parser_checks =
  bracketed_check :: "string \<Rightarrow> error option"
  nfkc_check :: "string \<Rightarrow> error option"

text \<open>
  The checks right after the authority is split off: brackets must come in pairs, and a
  bracketed authority is validated.
\<close>

definition check_brackets :: "parser_checks \<Rightarrow> string \<Rightarrow> error option" where
  "check_brackets chk nl =
     (if (CHR ''['' \<in> set nl \<and> CHR '']'' \<notin> set nl) \<or> (CHR '']'' \<in> set nl \<and> CHR ''['' \<notin> set nl)
      then Some (ValueError ''Invalid IPv6 URL'')
      else if CHR ''['' \<in> set nl \<and> CHR '']'' \<in> set nl then bracketed_check chk nl
      else None)"

text \<open>\<^verbatim>\<open>_checknetloc(netloc)\<close>: nothing to check in an empty or an ASCII authority.\<close>

definition isascii :: "char \<Rightarrow> bool" where
  "isascii c = ((of_char c :: nat) < 128)"

definition checknetloc :: "parser_checks \<Rightarrow> string \<Rightarrow> error option" where
  "checknetloc chk nl =
     (if nl = [] \<or> list_all isascii nl then None else nfkc_check chk nl)"

text \<open>
  The parameters of CPython before 3.11.4 on strings of code points below 256: a
  bracketed authority is not validated, and no NFKC form is rejected.
\<close>

definition no_checks :: parser_checks where
  "no_checks = \<lparr>bracketed_check = (\<lambda>nl. None), nfkc_check = (\<lambda>nl. None)\<rparr>"

text \<open>
  \<^verbatim>\<open>urlsplit(url)\<close> with the default scheme and fragments allowed. Leading C0 control
  characters and spaces are stripped, tab, carriage return and newline are removed
  everywhere, then scheme, authority, fragment and query are split off in that order,
  and \<^verbatim>\<open>_checknetloc\<close> has the last word on the authority.
\<close>

definition urlsplit :: "parser_checks \<Rightarrow> string \<Rightarrow> error + split_result" where
  "urlsplit chk url0 =
     (let url1 = dropWhile c0_control_or_space url0;
          url2 = filter (\<lambda>c. \<not> unsafe_byte c) url1;
          (sch, url3) = split_scheme url2;
          (nl, url4) = (if take 2 url3 = ''//'' then splitnetloc url3 2 else ([], url3))
      in case (if take 2 url3 = ''//'' then check_brackets chk nl else None) of
           Some e \<Rightarrow> Inl e
         | None \<Rightarrow>
             (let (url5, frag) = (if CHR ''#'' \<in> set url4 then split_once (CHR ''#'') url4
                                  else (url4, []));
                  (url6, qry) = (if CHR ''?'' \<in> set url5 then split_once (CHR ''?'') url5
                                 else (url5, []))
              in case checknetloc chk nl of
                   Some e \<Rightarrow> Inl e
                 | None \<Rightarrow>
                     Inr \<lparr>scheme = sch, netloc = nl, path = url6, query = qry,
                          fragment = frag\<rparr>))"

subsection \<open>\<^verbatim>\<open>urllib.parse.urlunsplit\<close>\<close>

definition uses_netloc :: "string list" where
  "uses_netloc = ['''', ''ftp'', ''http'', ''gopher'', ''nntp'', ''telnet'',
     ''imap'', ''wais'', ''file'', ''mms'', ''https'', ''shttp'',
     ''snews'', ''prospero'', ''rtsp'', ''rtsps'', ''rtspu'', ''rsync'',
     ''svn'', ''svn+ssh'', ''sftp'', ''nfs'', ''git'', ''git+ssh'',
     ''ws'', ''wss'']"

definition urlunsplit :: "string \<times> string \<times> string \<times> string \<times> string \<Rightarrow> string" where
  "urlunsplit components = (case components of (sch, nl, url, qry, frag) \<Rightarrow>
     (let url1 = (if nl \<noteq> [] \<or> (sch \<noteq> [] \<and> sch \<in> set uses_netloc) \<or> take 2 url = ''//''
                  then ''//'' @ nl @ (if url \<noteq> [] \<and> take 1 url \<noteq> ''/'' then ''/'' @ url else url)
                  else url);
          url2 = (if sch \<noteq> [] then sch @ '':'' @ url1 else url1);
          url3 = (if qry \<noteq> [] then url2 @ ''?'' @ qry else url2);
          url4 = (if frag \<noteq> [] then url3 @ ''#'' @ frag else url3)
      in url4))"

subsection \<open>The gateway validator\<close>

definition validate_gateway :: "parser_checks \<Rightarrow> string \<Rightarrow> error + string" where
  "validate_gateway chk url = (case urlsplit chk url of
       Inl e \<Rightarrow> Inl e
     | Inr url_chunks \<Rightarrow>
         if \<not> (netloc url_chunks \<noteq> [] \<or> path url_chunks \<noteq> [])
         then Inl (ValueError ([backtick] @ url @ [backtick] @ '' is not a valid URL''))
         else if netloc url_chunks \<noteq> []
         then Inr (urlunsplit (''https'', netloc url_chunks, path url_chunks, [], []))
         else Inr (urlunsplit (''https'', path url_chunks, [], [], [])))"


subsection \<open>Notions the statements use\<close>

text \<open>
  \<open>after_first x msg\<close> is what follows the first occurrence of \<open>x\<close> in \<open>msg\<close>;
  \<open>listed_in_order xs msg\<close> holds when the strings \<open>xs\<close> occur in \<open>msg\<close> one after the
  other, in the order of the list and without overlap.
\<close>

fun after_first :: "string \<Rightarrow> string \<Rightarrow> string option" where
  "after_first x [] = (if x = [] then Some [] else None)"
| "after_first x (c # cs) =
     (if prefix x (c # cs) then Some (drop (length x) (c # cs)) else after_first x cs)"

fun listed_in_order :: "string list \<Rightarrow> string \<Rightarrow> bool" where
  "listed_in_order [] msg = True"
| "listed_in_order (x # xs) msg = (case after_first x msg of
       None \<Rightarrow> False
     | Some rest \<Rightarrow> listed_in_order xs rest)"

text \<open>
  Intermediate values of \<open>urlsplit\<close>: the URL once stripped, cleaned and without its
  scheme, the error the parser raises on an authority, if any, and the path once
  fragment and query are cut off.
\<close>

definition prepared :: "string \<Rightarrow> string" where
  "prepared u =
     snd (split_scheme (filter (\<lambda>c. \<not> unsafe_byte c) (dropWhile c0_control_or_space u)))"

definition netloc_error :: "parser_checks \<Rightarrow> string \<Rightarrow> error option" where
  "netloc_error chk nl = (case check_brackets chk nl of
       Some e \<Rightarrow> Some e
     | None \<Rightarrow> checknetloc chk nl)"

definition path_part :: "string \<Rightarrow> string" where
  "path_part x = takeWhile (\<lambda>c. c \<noteq> CHR ''?'') (takeWhile (\<lambda>c. c \<noteq> CHR ''#'') x)"

subsection \<open>Two example enum types\<close>

text \<open>
  A string enum in the style of the library's request parameters: the encoding of a
  response, whose \<^verbatim>\<open>str\<close> is the value.
\<close>

datatype encoding = DBN | CSV | JSON

fun encoding_value :: "encoding \<Rightarrow> string" where
  "encoding_value DBN = ''dbn''"
| "encoding_value CSV = ''csv''"
| "encoding_value JSON = ''json''"

definition Encoding :: "encoding enum_type" where
  "Encoding = \<lparr>cls_name = ''Encoding'', members = [DBN, CSV, JSON],
     value_of = encoding_value, str_of = encoding_value\<rparr>"

text \<open>
  A plain enum, \<^verbatim>\<open>class Color(Enum)\<close> with \<^verbatim>\<open>RED = "red"\<close>, \<^verbatim>\<open>GREEN = "green"\<close> and
  \<^verbatim>\<open>BLUE = "blue"\<close>: \<^verbatim>\<open>str\<close> is the one \<^verbatim>\<open>Enum\<close> defines, class name, dot, member name.
\<close>

datatype color = RED | GREEN | BLUE

fun color_name :: "color \<Rightarrow> string" where
  "color_name RED = ''RED''"
| "color_name GREEN = ''GREEN''"
| "color_name BLUE = ''BLUE''"

fun color_value :: "color \<Rightarrow> string" where
  "color_value RED = ''red''"
| "color_value GREEN = ''green''"
| "color_value BLUE = ''blue''"

definition Color :: "color enum_type" where
  "Color = \<lparr>cls_name = ''Color'', members = [RED, GREEN, BLUE],
     value_of = color_value, str_of = (\<lambda>m. ''Color.'' @ color_name m)\<rparr>"

section \<open>Auxiliary facts\<close>

subsection \<open>Enum lookup and the error message\<close>

lemma find_distinct_value:
  "distinct (map f xs) \<Longrightarrow> m \<in> set xs \<Longrightarrow> find (\<lambda>x. f x = f m) xs = Some m"
  by (induction xs) (auto simp: image_iff)

lemma find_no_value: "s \<notin> f ` set xs \<Longrightarrow> find (\<lambda>x. f x = s) xs = None"
  by (auto simp: find_None_iff)

lemma validate_enum_member: "validate_enum (Member m) E p = Inr m"
  by (simp add: validate_enum_def enum_call_def)

lemma validate_enum_value:
  "wf_enum E \<Longrightarrow> m \<in> set (members E) \<Longrightarrow> validate_enum (Str (value_of E m)) E p = Inr m"
  by (simp add: validate_enum_def enum_call_def wf_enum_def find_distinct_value)

lemma validate_enum_no_value:
  "s \<notin> value_of E ` set (members E) \<Longrightarrow>
     validate_enum (Str s) E p =
       Inl (ValueError (enum_error_message p (format_enum E) s (map (str_of E) (members E))))"
  by (simp add: validate_enum_def enum_call_def find_no_value format_value_def)

lemma validate_enum_error:
  assumes "validate_enum v E p = Inl e"
  shows "\<exists>s. v = Str s \<and>
     e = ValueError (enum_error_message p (format_enum E) s (map (str_of E) (members E)))"
  using assms
  by (cases v) (auto simp: validate_enum_def enum_call_def format_value_def
                     split: option.splits error.splits)

lemma message_has_param:
  "sublist ([backtick] @ p @ [backtick]) (enum_error_message p es vs valid)"
proof -
  have "enum_error_message p es vs valid =
      ''The '' @ ([backtick] @ p @ [backtick]) @
      ('' was not a valid value of '' @ es @ '', was '' @ [squote] @ vs @ [squote] @ ''. ''
       @ ''Use any of '' @ tuple_repr valid @ ''.'')"
    by (simp add: enum_error_message_def)
  then show ?thesis by (metis sublist_appendI)
qed

lemma message_has_value:
  "sublist ([squote] @ vs @ [squote]) (enum_error_message p es vs valid)"
proof -
  have "enum_error_message p es vs valid =
      (''The '' @ [backtick] @ p @ [backtick] @ '' was not a valid value of '' @ es @ '', was '')
      @ ([squote] @ vs @ [squote]) @ (''. '' @ ''Use any of '' @ tuple_repr valid @ ''.'')"
    by (simp add: enum_error_message_def)
  then show ?thesis by (metis sublist_appendI)
qed

lemma message_ends_with_valid:
  "suffix (''Use any of '' @ tuple_repr valid @ ''.'') (enum_error_message p es vs valid)"
proof -
  have "enum_error_message p es vs valid =
      (''The '' @ [backtick] @ p @ [backtick] @ '' was not a valid value of '' @ es @ '', was ''
       @ [squote] @ vs @ [squote] @ ''. '') @ (''Use any of '' @ tuple_repr valid @ ''.'')"
    by (simp add: enum_error_message_def)
  then show ?thesis by (metis suffix_appendI suffix_order.order_refl)
qed

lemma after_first_occurrence:
  "\<exists>r. after_first x (p @ x @ s) = Some r \<and> suffix s r"
proof (induction p)
  case Nil
  show ?case
  proof (cases "x @ s")
    case Nil
    then show ?thesis by simp
  next
    case (Cons a l)
    have "prefix x (a # l)" unfolding Cons[symmetric] by simp
    moreover have "drop (length x) (a # l) = s" unfolding Cons[symmetric] by simp
    ultimately show ?thesis using Cons by simp
  qed
next
  case (Cons c p)
  show ?case
  proof (cases "prefix x (c # p @ x @ s)")
    case True
    have "drop (length x) ((c # p @ x) @ s) = drop (length x) (c # p @ x) @ s"
      by (subst drop_append) simp
    then have "suffix s (drop (length x) (c # p @ x @ s))"
      by (simp add: suffix_def)
    with True show ?thesis by simp
  next
    case False
    with Cons show ?thesis by simp
  qed
qed

lemma listed_in_order_join:
  "listed_in_order xs (pre @ join sep xs @ post)"
proof (induction sep xs arbitrary: pre rule: join.induct)
  case (1 sep)
  show ?case by simp
next
  case (2 sep x)
  obtain r where "after_first x (pre @ x @ post) = Some r"
    using after_first_occurrence by blast
  then show ?case by simp
next
  case (3 sep x y ys)
  obtain r where r: "after_first x (pre @ x @ (sep @ join sep (y # ys) @ post)) = Some r"
      and "suffix (sep @ join sep (y # ys) @ post) r"
    using after_first_occurrence by blast
  then obtain q where "r = (q @ sep) @ join sep (y # ys) @ post"
    by (auto simp: suffix_def)
  then have "listed_in_order (y # ys) r" using 3 by blast
  with r show ?case by simp
qed

lemma listed_in_tuple_repr:
  "listed_in_order (map py_repr xs) (pre @ tuple_repr xs @ post)"
proof (cases "\<exists>x. xs = [x]")
  case True
  then obtain x where x: "xs = [x]" by blast
  have "pre @ tuple_repr xs @ post = (pre @ ''('') @ join '', '' (map py_repr xs) @ ('',)'' @ post)"
    by (simp add: x tuple_repr_def)
  then show ?thesis using listed_in_order_join by metis
next
  case False
  then have "tuple_repr xs = ''('' @ join '', '' (map py_repr xs) @ '')''"
    by (auto simp: tuple_repr_def split: list.splits)
  then have "pre @ tuple_repr xs @ post = (pre @ ''('') @ join '', '' (map py_repr xs) @ ('')'' @ post)"
    by simp
  then show ?thesis using listed_in_order_join by metis
qed

lemma message_lists_valid:
  "listed_in_order (map py_repr valid) (enum_error_message p es vs valid)"
proof -
  have "enum_error_message p es vs valid =
      (''The '' @ [backtick] @ p @ [backtick] @ '' was not a valid value of '' @ es @ '', was ''
       @ [squote] @ vs @ [squote] @ ''. '' @ ''Use any of '') @ tuple_repr valid @ ''.''"
    by (simp add: enum_error_message_def)
  then show ?thesis using listed_in_tuple_repr by metis
qed

subsection \<open>Splitting and rebuilding a URL\<close>

lemma takeWhile_neq_all: "c \<notin> set s \<Longrightarrow> takeWhile (\<lambda>x. x \<noteq> c) s = s"
  by (rule takeWhile_eq_all_conv[THEN iffD2]) auto

lemma dropWhile_neq_all: "c \<notin> set s \<Longrightarrow> dropWhile (\<lambda>x. x \<noteq> c) s = []"
  by (rule dropWhile_eq_Nil_conv[THEN iffD2]) auto

lemma split_once_if: "(if c \<in> set s then split_once c s else (s, [])) = split_once c s"
  by (simp add: split_once_def takeWhile_neq_all dropWhile_neq_all)

lemma split_scheme_snd_subset: "set (snd (split_scheme x)) \<subseteq> set x"
  by (auto simp: split_scheme_def Let_def split: list.splits dest: in_set_dropD)

lemma prepared_safe: "x \<in> set (prepared u) \<Longrightarrow> \<not> unsafe_byte x"
  using split_scheme_snd_subset[of "filter (\<lambda>c. \<not> unsafe_byte c) (dropWhile c0_control_or_space u)"]
  by (auto simp: prepared_def)

lemma urlsplit_netloc:
  "urlsplit chk u = Inr c \<Longrightarrow>
     netloc c = (if take 2 (prepared u) = ''//''
                 then takeWhile (\<lambda>c. \<not> netloc_delim c) (drop 2 (prepared u)) else [])"
  by (auto simp: urlsplit_def Let_def prepared_def splitnetloc_def split_once_if
           split: prod.splits option.splits if_splits)

lemma urlsplit_path:
  "urlsplit chk u = Inr c \<Longrightarrow>
     path c = path_part (if take 2 (prepared u) = ''//''
                 then dropWhile (\<lambda>c. \<not> netloc_delim c) (drop 2 (prepared u)) else prepared u)"
  by (auto simp: urlsplit_def Let_def prepared_def splitnetloc_def split_once_if split_once_def path_part_def
           split: prod.splits option.splits if_splits)

lemma urlsplit_check:
  "urlsplit chk u = Inr c \<Longrightarrow> netloc c \<noteq> [] \<Longrightarrow> netloc_error chk (netloc c) = None"
  by (auto simp: urlsplit_def Let_def prepared_def splitnetloc_def split_once_if netloc_error_def
           split: prod.splits option.splits if_splits)

lemma path_part_chars: "x \<in> set (path_part s) \<Longrightarrow> x \<noteq> CHR ''?'' \<and> x \<noteq> CHR ''#'' \<and> x \<in> set s"
  by (auto simp: path_part_def dest!: set_takeWhileD)

lemma path_part_id: "CHR ''?'' \<notin> set s \<Longrightarrow> CHR ''#'' \<notin> set s \<Longrightarrow> path_part s = s"
  by (simp add: path_part_def takeWhile_neq_all)

lemma path_part_after_netloc:
  "path_part (dropWhile (\<lambda>c. \<not> netloc_delim c) s) = [] \<or>
   (\<exists>t. path_part (dropWhile (\<lambda>c. \<not> netloc_delim c) s) = CHR ''/'' # t)"
proof (cases "dropWhile (\<lambda>c. \<not> netloc_delim c) s")
  case Nil
  show ?thesis unfolding Nil by (simp add: path_part_def)
next
  case (Cons d t)
  then have "netloc_delim d" using hd_dropWhile[of "\<lambda>c. \<not> netloc_delim c" s] by auto
  then show ?thesis unfolding Cons by (auto simp: path_part_def netloc_delim_def)
qed

lemma urlsplit_path_chars:
  assumes "urlsplit chk u = Inr c" and "x \<in> set (path c)"
  shows "x \<noteq> CHR ''?'' \<and> x \<noteq> CHR ''#'' \<and> \<not> unsafe_byte x"
proof -
  from assms have "x \<noteq> CHR ''?'' \<and> x \<noteq> CHR ''#'' \<and> x \<in> set (prepared u)"
    by (auto simp: urlsplit_path split: if_splits dest!: path_part_chars set_dropWhileD in_set_dropD)
  then show ?thesis using prepared_safe by blast
qed

lemma urlsplit_netloc_chars:
  assumes "urlsplit chk u = Inr c" and "x \<in> set (netloc c)"
  shows "\<not> netloc_delim x \<and> \<not> unsafe_byte x"
proof -
  from assms have "\<not> netloc_delim x \<and> x \<in> set (prepared u)"
    by (auto simp: urlsplit_netloc split: if_splits dest!: set_takeWhileD in_set_dropD)
  then show ?thesis using prepared_safe by blast
qed

lemma urlsplit_path_after_netloc:
  assumes "urlsplit chk u = Inr c" and "netloc c \<noteq> []"
  shows "path c = [] \<or> (\<exists>t. path c = CHR ''/'' # t)"
proof -
  from assms have "take 2 (prepared u) = ''//''"
    by (auto simp: urlsplit_netloc split: if_splits)
  then show ?thesis using assms(1) path_part_after_netloc[of "drop 2 (prepared u)"]
    by (simp add: urlsplit_path)
qed

lemma split_scheme_https: "split_scheme (''https://'' @ b) = (''https'', ''//'' @ b)"
  by (simp add: split_scheme_def scheme_char_def ascii_alpha_def lower_char_def Let_def)

lemma strip_https: "dropWhile c0_control_or_space (''https://'' @ b) = ''https://'' @ b"
  by (simp add: c0_control_or_space_def)

lemma filter_https:
  "\<forall>x\<in>set b. \<not> unsafe_byte x \<Longrightarrow> filter (\<lambda>c. \<not> unsafe_byte c) (''https://'' @ b) = ''https://'' @ b"
  by (simp add: unsafe_byte_def)

lemma takeWhile_delim_slash:
  "\<forall>x\<in>set b. x \<noteq> CHR ''?'' \<and> x \<noteq> CHR ''#'' \<Longrightarrow>
     takeWhile (\<lambda>c. \<not> netloc_delim c) b = takeWhile (\<lambda>c. c \<noteq> CHR ''/'') b"
  by (rule takeWhile_cong) (auto simp: netloc_delim_def)

lemma dropWhile_delim_slash:
  "\<forall>x\<in>set b. x \<noteq> CHR ''?'' \<and> x \<noteq> CHR ''#'' \<Longrightarrow>
     dropWhile (\<lambda>c. \<not> netloc_delim c) b = dropWhile (\<lambda>c. c \<noteq> CHR ''/'') b"
  by (rule dropWhile_cong) (auto simp: netloc_delim_def)

lemma urlsplit_https:
  assumes "\<forall>x\<in>set b. x \<noteq> CHR ''?'' \<and> x \<noteq> CHR ''#'' \<and> \<not> unsafe_byte x"
  shows "urlsplit chk (''https://'' @ b) =
     (case netloc_error chk (takeWhile (\<lambda>c. c \<noteq> CHR ''/'') b) of
        Some e \<Rightarrow> Inl e
      | None \<Rightarrow> Inr \<lparr>scheme = ''https'', netloc = takeWhile (\<lambda>c. c \<noteq> CHR ''/'') b,
                       path = dropWhile (\<lambda>c. c \<noteq> CHR ''/'') b, query = [], fragment = []\<rparr>)"
proof -
  have safe: "\<forall>x\<in>set b. \<not> unsafe_byte x" and nq: "\<forall>x\<in>set b. x \<noteq> CHR ''?'' \<and> x \<noteq> CHR ''#''"
    using assms by auto
  have d: "CHR ''#'' \<notin> set (dropWhile (\<lambda>c. c \<noteq> CHR ''/'') b)"
          "CHR ''?'' \<notin> set (dropWhile (\<lambda>c. c \<noteq> CHR ''/'') b)"
    using nq by (auto dest: set_dropWhileD)
  have pre: "split_scheme (filter (\<lambda>c. \<not> unsafe_byte c)
                 (dropWhile c0_control_or_space (''https://'' @ b))) = (''https'', ''//'' @ b)"
    by (simp only: strip_https filter_https[OF safe] split_scheme_https)
  show ?thesis
    unfolding urlsplit_def Let_def pre
    using d
    by (simp add: splitnetloc_def takeWhile_delim_slash[OF nq] dropWhile_delim_slash[OF nq]
          netloc_error_def split: option.splits)
qed

lemma urlunsplit_https:
  "nl \<noteq> [] \<Longrightarrow> p = [] \<or> (\<exists>t. p = CHR ''/'' # t) \<Longrightarrow>
     urlunsplit (''https'', nl, p, [], []) = ''https://'' @ nl @ p"
  by (auto simp: urlunsplit_def)

lemma gateway_netloc_branch:
  assumes "urlsplit chk u = Inr c" and "netloc c \<noteq> []"
  shows "validate_gateway chk u = Inr (''https://'' @ netloc c @ path c)"
  using assms urlsplit_path_after_netloc[OF assms]
  by (simp add: validate_gateway_def urlunsplit_https)

lemma gateway_path_branch:
  assumes "urlsplit chk u = Inr c" and "netloc c = []" and "path c \<noteq> []"
  shows "validate_gateway chk u = Inr (''https://'' @ path c)"
  using assms by (simp add: validate_gateway_def urlunsplit_https)

lemma gateway_https:
  assumes "b \<noteq> []"
    and "\<forall>x\<in>set b. x \<noteq> CHR ''?'' \<and> x \<noteq> CHR ''#'' \<and> \<not> unsafe_byte x"
  shows "validate_gateway chk (''https://'' @ b) =
     (case netloc_error chk (takeWhile (\<lambda>c. c \<noteq> CHR ''/'') b) of
        Some e \<Rightarrow> Inl e
      | None \<Rightarrow> Inr (''https://'' @ b))"
proof (cases "netloc_error chk (takeWhile (\<lambda>c. c \<noteq> CHR ''/'') b)")
  case (Some e)
  have sp: "urlsplit chk (''https://'' @ b) = Inl e"
    unfolding urlsplit_https[OF assms(2)] Some by simp
  show ?thesis unfolding validate_gateway_def sp Some by simp
next
  case None
  let ?n = "takeWhile (\<lambda>c. c \<noteq> CHR ''/'') b"
  let ?p = "dropWhile (\<lambda>c. c \<noteq> CHR ''/'') b"
  let ?c = "\<lparr>scheme = ''https'', netloc = ?n, path = ?p, query = [], fragment = []\<rparr>"
  have sp: "urlsplit chk (''https://'' @ b) = Inr ?c"
    unfolding urlsplit_https[OF assms(2)] None by simp
  show ?thesis
  proof (cases "?n = []")
    case True
    then have "?p = b" by (cases b) (auto split: if_splits)
    with True sp assms(1) None show ?thesis
      using gateway_path_branch[OF sp] by simp
  next
    case False
    with sp None show ?thesis
      using gateway_netloc_branch[OF sp] by simp
  qed
qed

lemma gateway_result:
  assumes "validate_gateway chk u = Inr r"
  obtains c where "urlsplit chk u = Inr c" and
    "(netloc c \<noteq> [] \<and> r = ''https://'' @ netloc c @ path c) \<or>
     (netloc c = [] \<and> path c \<noteq> [] \<and> r = ''https://'' @ path c)"
proof (cases "urlsplit chk u")
  case (Inl e)
  with assms show ?thesis by (simp add: validate_gateway_def)
next
  case (Inr c)
  show ?thesis
  proof (cases "netloc c = []")
    case True
    with assms Inr have "path c \<noteq> []" by (auto simp: validate_gateway_def split: if_splits)
    with True Inr assms that show ?thesis using gateway_path_branch[OF Inr True] by auto
  next
    case False
    with Inr assms that show ?thesis using gateway_netloc_branch[OF Inr False] by auto
  qed
qed

lemma urlsplit_example_netloc:
  "urlsplit chk ''http://host.example.com/path'' =
     Inr \<lparr>scheme = ''http'', netloc = ''host.example.com'', path = ''/path'',
          query = [], fragment = []\<rparr>"
  by code_simp

lemma urlsplit_example_path:
  "urlsplit chk ''host.example.com/path'' =
     Inr \<lparr>scheme = [], netloc = [], path = ''host.example.com/path'',
          query = [], fragment = []\<rparr>"
  by code_simp

lemma urlsplit_empty:
  "urlsplit chk [] = Inr \<lparr>scheme = [], netloc = [], path = [], query = [], fragment = []\<rparr>"
  by code_simp

lemma gateway_result_body:
  assumes "validate_gateway chk u = Inr r"
  obtains b where "r = ''https://'' @ b" and "b \<noteq> []"
    and "\<forall>x\<in>set b. x \<noteq> CHR ''?'' \<and> x \<noteq> CHR ''#'' \<and> \<not> unsafe_byte x"
proof -
  from assms obtain c where c: "urlsplit chk u = Inr c" and
    r: "(netloc c \<noteq> [] \<and> r = ''https://'' @ netloc c @ path c) \<or>
        (netloc c = [] \<and> path c \<noteq> [] \<and> r = ''https://'' @ path c)"
    by (rule gateway_result)
  have p: "\<forall>x\<in>set (path c). x \<noteq> CHR ''?'' \<and> x \<noteq> CHR ''#'' \<and> \<not> unsafe_byte x"
    using urlsplit_path_chars [OF c] by blast
  have n: "\<forall>x\<in>set (netloc c). x \<noteq> CHR ''?'' \<and> x \<noteq> CHR ''#'' \<and> \<not> unsafe_byte x"
    using urlsplit_netloc_chars [OF c] by (auto simp: netloc_delim_def)
  from r show ?thesis
  proof
    assume "netloc c \<noteq> [] \<and> r = ''https://'' @ netloc c @ path c"
    then show ?thesis using that [of "netloc c @ path c"] p n by auto
  next
    assume "netloc c = [] \<and> path c \<noteq> [] \<and> r = ''https://'' @ path c"
    then show ?thesis using that [of "path c"] p by auto
  qed
qed

section \<open>The claims\<close>

subsection \<open>The enum validators\<close>

text \<open>
  C1, as the code has it. A member of \<open>E\<close> is returned as it is, and a string is resolved
  by the lookup \<^verbatim>\<open>enum(value)\<close>, which goes by the members' values: a string equal to a
  member's value gives that member, whatever the parameter name. A member's canonical
  string is therefore resolved to the member in every enum type whose \<^verbatim>\<open>str\<close> returns
  the value (\<open>canonical_enum\<close>). The function is pure, so a call has no effect besides its
  result.
\<close>

theorem validate_enum_resolves:
  assumes "wf_enum E" and "m \<in> set (members E)"
  shows "validate_enum (Member m) E p = Inr m
     \<and> validate_enum (Str (value_of E m)) E p = Inr m
     \<and> (canonical_enum E \<longrightarrow> validate_enum (Str (str_of E m)) E p = Inr m)"
proof -
  have v: "validate_enum (Str (value_of E m)) E p = Inr m"
    using assms by (rule validate_enum_value)
  have "canonical_enum E \<Longrightarrow> str_of E m = value_of E m"
    using assms(2) by (simp add: canonical_enum_def list_all_iff)
  with v show ?thesis by (simp add: validate_enum_member)
qed

theorem validate_enum_resolves_witness:
  "wf_enum Encoding \<and> CSV \<in> set (members Encoding) \<and> canonical_enum Encoding
     \<and> validate_enum (Member CSV) Encoding ''encoding'' = Inr CSV
     \<and> validate_enum (Str ''csv'') Encoding ''encoding'' = Inr CSV"
proof -
  have w: "wf_enum Encoding" by (simp add: wf_enum_def Encoding_def)
  have m: "CSV \<in> set (members Encoding)" by (simp add: Encoding_def)
  have c: "canonical_enum Encoding" using w by (simp add: canonical_enum_def Encoding_def)
  have s: "str_of Encoding CSV = ''csv''" by (simp add: Encoding_def)
  show ?thesis
    using validate_enum_resolves [OF w m, of "''encoding''"] w m c s by simp
qed

text \<open>
  In the plain enum \<open>Color\<close> the canonical string of \<open>RED\<close> is \<^verbatim>\<open>Color.RED\<close>, which is the
  value of no member: \<open>validate_enum\<close> raises on it, and the message lists that very
  string among the accepted ones.
\<close>

theorem plain_enum_str_rejected:
  "wf_enum Color \<and> RED \<in> set (members Color) \<and> str_of Color RED = ''Color.RED''
   \<and> validate_enum (Str ''Color.RED'') Color ''color'' =
       Inl (ValueError (enum_error_message ''color'' (format_enum Color) ''Color.RED''
              [''Color.RED'', ''Color.GREEN'', ''Color.BLUE'']))"
  by code_simp

text \<open>
  C2, as the code has it. A string that is the value of no member makes \<open>validate_enum\<close>
  raise, whether or not it is a canonical string. The message holds the parameter name
  between backticks and the offending value as given between quotes, and it ends with
  the tuple of the canonical strings \<^verbatim>\<open>str(m)\<close> of all members \<open>m\<close>: each of them occurs,
  as \<^verbatim>\<open>repr\<close> writes it, in the order of declaration.
\<close>

theorem validate_enum_rejects:
  assumes "s \<notin> value_of E ` set (members E)"
  shows "\<exists>msg. validate_enum (Str s) E p = Inl (ValueError msg)
     \<and> sublist ([backtick] @ p @ [backtick]) msg
     \<and> sublist ([squote] @ s @ [squote]) msg
     \<and> suffix (''Use any of '' @ tuple_repr (map (str_of E) (members E)) @ ''.'') msg
     \<and> listed_in_order (map py_repr (map (str_of E) (members E))) msg"
  using validate_enum_no_value [OF assms, of p]
    message_has_param message_has_value message_ends_with_valid message_lists_valid
  by blast

theorem validate_enum_rejects_witness:
  "''xml'' \<notin> value_of Encoding ` set (members Encoding)
     \<and> validate_enum (Str ''xml'') Encoding ''encoding'' =
         Inl (ValueError (''The '' @ [backtick] @ ''encoding'' @ [backtick]
           @ '' was not a valid value of <enum '' @ [squote] @ ''Encoding'' @ [squote]
           @ ''>, was '' @ [squote] @ ''xml'' @ [squote] @ ''. Use any of (''
           @ [squote] @ ''dbn'' @ [squote] @ '', '' @ [squote] @ ''csv'' @ [squote] @ '', ''
           @ [squote] @ ''json'' @ [squote] @ '').''))
     \<and> listed_in_order [[squote] @ ''dbn'' @ [squote], [squote] @ ''csv'' @ [squote],
           [squote] @ ''json'' @ [squote]]
         (''The '' @ [backtick] @ ''encoding'' @ [backtick]
           @ '' was not a valid value of <enum '' @ [squote] @ ''Encoding'' @ [squote]
           @ ''>, was '' @ [squote] @ ''xml'' @ [squote] @ ''. Use any of (''
           @ [squote] @ ''dbn'' @ [squote] @ '', '' @ [squote] @ ''csv'' @ [squote] @ '', ''
           @ [squote] @ ''json'' @ [squote] @ '').'')"
proof -
  have h: "''xml'' \<notin> value_of Encoding ` set (members Encoding)"
    by (simp add: Encoding_def)
  have r: "map py_repr (map (str_of Encoding) (members Encoding)) =
      [[squote] @ ''dbn'' @ [squote], [squote] @ ''csv'' @ [squote], [squote] @ ''json'' @ [squote]]"
    by (simp add: Encoding_def py_repr_def repr_char_def isprintable_def
          squote_def dquote_def backslash_def Let_def)
  have e: "validate_enum (Str ''xml'') Encoding ''encoding'' =
         Inl (ValueError (''The '' @ [backtick] @ ''encoding'' @ [backtick]
           @ '' was not a valid value of <enum '' @ [squote] @ ''Encoding'' @ [squote]
           @ ''>, was '' @ [squote] @ ''xml'' @ [squote] @ ''. Use any of (''
           @ [squote] @ ''dbn'' @ [squote] @ '', '' @ [squote] @ ''csv'' @ [squote] @ '', ''
           @ [squote] @ ''json'' @ [squote] @ '').''))"
    by (simp add: validate_enum_def enum_call_def Encoding_def enum_error_message_def
          format_enum_def format_value_def tuple_repr_def py_repr_def repr_char_def
          isprintable_def squote_def dquote_def backslash_def Let_def)
  from validate_enum_rejects [OF h, of "''encoding''"] e r h show ?thesis
    by auto
qed

text \<open>
  In the plain enum \<open>Color\<close> the string \<^verbatim>\<open>red\<close> is no member (a member of a plain enum
  is not equal to its value) and no canonical string, yet it is the value of \<open>RED\<close>:
  \<open>validate_enum\<close> does not raise and returns \<open>RED\<close>.
\<close>

theorem plain_enum_value_accepted:
  "''red'' \<notin> str_of Color ` set (members Color)
   \<and> validate_enum (Str ''red'') Color ''color'' = Inr RED"
  by code_simp

text \<open>
  C7. \<open>validate_maybe_enum\<close> returns \<open>None\<close> for \<open>None\<close>: the result is the same for
  every enum type and every parameter name, so neither is consulted. For any other value
  it succeeds with the member \<open>validate_enum\<close> returns and fails with the error
  \<open>validate_enum\<close> raises, and it never returns \<open>None\<close> then.
\<close>

theorem validate_maybe_enum_contract:
  "validate_maybe_enum None E p = Inr None
   \<and> validate_maybe_enum None E p = validate_maybe_enum None E' p'
   \<and> (validate_maybe_enum (Some v) E p = Inr (Some m) \<longleftrightarrow> validate_enum v E p = Inr m)
   \<and> (validate_maybe_enum (Some v) E p = Inl e \<longleftrightarrow> validate_enum v E p = Inl e)
   \<and> validate_maybe_enum (Some v) E p \<noteq> Inr None"
  by (auto simp: validate_maybe_enum_def split: sum.splits)

subsection \<open>Error messages\<close>

text \<open>
  C3, as the code has it. A failure of \<open>validate_enum\<close> or of \<open>validate_maybe_enum\<close> is
  raised for a string value, and its message holds the parameter name between backticks
  and that string between quotes. \<open>validate_gateway\<close> takes no parameter name: when the
  URL parses and the validator rejects it, the message is the URL between backticks
  followed by a fixed text, so it holds the offending value and no parameter name.
\<close>

theorem failure_messages:
  "(validate_enum v E p = Inl (ValueError msg) \<longrightarrow>
      (\<exists>s. v = Str s \<and> sublist ([backtick] @ p @ [backtick]) msg
           \<and> sublist ([squote] @ s @ [squote]) msg))
   \<and> (validate_maybe_enum ov E p = Inl (ValueError msg) \<longrightarrow>
      (\<exists>s. ov = Some (Str s) \<and> sublist ([backtick] @ p @ [backtick]) msg
           \<and> sublist ([squote] @ s @ [squote]) msg))
   \<and> (urlsplit chk url = Inr c \<longrightarrow> validate_gateway chk url = Inl (ValueError msg) \<longrightarrow>
      msg = [backtick] @ url @ [backtick] @ '' is not a valid URL''
      \<and> sublist ([backtick] @ url @ [backtick]) msg)"
proof (intro conjI impI)
  assume "validate_enum v E p = Inl (ValueError msg)"
  from validate_enum_error [OF this]
  show "\<exists>s. v = Str s \<and> sublist ([backtick] @ p @ [backtick]) msg
           \<and> sublist ([squote] @ s @ [squote]) msg"
    using message_has_param message_has_value by blast
next
  assume a: "validate_maybe_enum ov E p = Inl (ValueError msg)"
  then obtain v where ov: "ov = Some v" and "validate_enum v E p = Inl (ValueError msg)"
    by (auto simp: validate_maybe_enum_def split: option.splits sum.splits)
  from validate_enum_error [OF this(2)] ov
  show "\<exists>s. ov = Some (Str s) \<and> sublist ([backtick] @ p @ [backtick]) msg
           \<and> sublist ([squote] @ s @ [squote]) msg"
    using message_has_param message_has_value by blast
next
  assume "urlsplit chk url = Inr c" and "validate_gateway chk url = Inl (ValueError msg)"
  then show m: "msg = [backtick] @ url @ [backtick] @ '' is not a valid URL''"
    by (auto simp: validate_gateway_def split: if_splits)
  have "msg = [] @ ([backtick] @ url @ [backtick]) @ '' is not a valid URL''"
    using m by simp
  then show "sublist ([backtick] @ url @ [backtick]) msg"
    by (metis sublist_appendI)
qed

text \<open>
  The message \<open>validate_gateway\<close> raises for the empty string names neither \<^verbatim>\<open>url\<close>, the
  parameter of the function, nor \<^verbatim>\<open>gateway\<close>, the parameter of the client.
\<close>

theorem gateway_message_without_param_name:
  "validate_gateway no_checks [] =
      Inl (ValueError ([backtick] @ [] @ [backtick] @ '' is not a valid URL''))
   \<and> \<not> sublist ''url'' ([backtick] @ [] @ [backtick] @ '' is not a valid URL'')
   \<and> \<not> sublist ''gateway'' ([backtick] @ [] @ [backtick] @ '' is not a valid URL'')"
  by code_simp

theorem failure_messages_witness:
  "validate_enum (Str ''xml'') Encoding ''encoding'' =
       Inl (ValueError (enum_error_message ''encoding'' (format_enum Encoding) ''xml''
              [''dbn'', ''csv'', ''json'']))
   \<and> sublist ([backtick] @ ''encoding'' @ [backtick])
         (enum_error_message ''encoding'' (format_enum Encoding) ''xml''
              [''dbn'', ''csv'', ''json''])
   \<and> sublist ([squote] @ ''xml'' @ [squote])
         (enum_error_message ''encoding'' (format_enum Encoding) ''xml''
              [''dbn'', ''csv'', ''json''])
   \<and> validate_maybe_enum (Some (Str ''xml'')) Encoding ''encoding'' =
       Inl (ValueError (enum_error_message ''encoding'' (format_enum Encoding) ''xml''
              [''dbn'', ''csv'', ''json'']))
   \<and> urlsplit no_checks ''?q=1'' =
       Inr \<lparr>scheme = [], netloc = [], path = [], query = ''q=1'', fragment = []\<rparr>
   \<and> validate_gateway no_checks ''?q=1'' =
       Inl (ValueError ([backtick] @ ''?q=1'' @ [backtick] @ '' is not a valid URL''))
   \<and> sublist ([backtick] @ ''?q=1'' @ [backtick])
         ([backtick] @ ''?q=1'' @ [backtick] @ '' is not a valid URL'')"
proof -
  let ?M = "enum_error_message ''encoding'' (format_enum Encoding) ''xml''
              [''dbn'', ''csv'', ''json'']"
  let ?G = "[backtick] @ ''?q=1'' @ [backtick] @ '' is not a valid URL''"
  let ?c = "\<lparr>scheme = [], netloc = [], path = [], query = ''q=1'', fragment = []\<rparr>"
  have e: "validate_enum (Str ''xml'') Encoding ''encoding'' = Inl (ValueError ?M)"
    by code_simp
  have m: "validate_maybe_enum (Some (Str ''xml'')) Encoding ''encoding'' = Inl (ValueError ?M)"
    by code_simp
  have u: "urlsplit no_checks ''?q=1'' = Inr ?c"
    by code_simp
  have g: "validate_gateway no_checks ''?q=1'' = Inl (ValueError ?G)"
    by code_simp
  from failure_messages [of "Str ''xml''" Encoding "''encoding''" ?M
      "Some (Str ''xml'')" no_checks "''?q=1''" ?c] e m
  have 1: "sublist ([backtick] @ ''encoding'' @ [backtick]) ?M
      \<and> sublist ([squote] @ ''xml'' @ [squote]) ?M"
    by blast
  from failure_messages [of "Str ''xml''" Encoding "''encoding''" ?G
      "Some (Str ''xml'')" no_checks "''?q=1''" ?c] u g
  have 2: "sublist ([backtick] @ ''?q=1'' @ [backtick]) ?G"
    by blast
  from e m u g 1 2 show ?thesis by blast
qed

subsection \<open>The gateway validator\<close>

text \<open>
  C4. When the parse of the URL yields a network location, \<open>validate_gateway\<close> returns
  \<^verbatim>\<open>https://\<close>, that network location and the path of the parse: the scheme, the query
  and the fragment of the input do not reach the result. The URL
  \<^verbatim>\<open>http://host.example.com/path\<close> becomes \<^verbatim>\<open>https://host.example.com/path\<close>.
\<close>

theorem gateway_netloc_rebuilt:
  assumes "urlsplit chk url = Inr c" and "netloc c \<noteq> []"
  shows "validate_gateway chk url = Inr (''https://'' @ netloc c @ path c)
     \<and> validate_gateway chk ''http://host.example.com/path'' = Inr ''https://host.example.com/path''"
  using gateway_netloc_branch [OF assms] gateway_netloc_branch [OF urlsplit_example_netloc]
  by simp

theorem gateway_netloc_rebuilt_witness:
  "urlsplit no_checks ''HTTP://user@host.example.com:8443/v0/path?x=1#frag'' =
     Inr \<lparr>scheme = ''http'', netloc = ''user@host.example.com:8443'', path = ''/v0/path'',
          query = ''x=1'', fragment = ''frag''\<rparr>
   \<and> validate_gateway no_checks ''HTTP://user@host.example.com:8443/v0/path?x=1#frag'' =
     Inr ''https://user@host.example.com:8443/v0/path''"
proof -
  let ?c = "\<lparr>scheme = ''http'', netloc = ''user@host.example.com:8443'', path = ''/v0/path'',
          query = ''x=1'', fragment = ''frag''\<rparr>"
  have h: "urlsplit no_checks ''HTTP://user@host.example.com:8443/v0/path?x=1#frag'' = Inr ?c"
    by code_simp
  have n: "netloc ?c \<noteq> []" by simp
  from gateway_netloc_rebuilt [OF h n] h show ?thesis by simp
qed

text \<open>
  C5. When the parse yields no network location and a path, the whole path is the
  authority of the rebuilt URL, whose own path is empty: the result is \<^verbatim>\<open>https://\<close>
  followed by the path as it is, slashes included. \<^verbatim>\<open>host.example.com/path\<close> parses
  without a network location and becomes \<^verbatim>\<open>https://host.example.com/path\<close> this way.
\<close>

theorem gateway_path_as_host:
  assumes "urlsplit chk url = Inr c" and "netloc c = []" and "path c \<noteq> []"
  shows "validate_gateway chk url = Inr (urlunsplit (''https'', path c, [], [], []))
     \<and> urlunsplit (''https'', path c, [], [], []) = ''https://'' @ path c
     \<and> urlsplit chk ''host.example.com/path'' =
         Inr \<lparr>scheme = [], netloc = [], path = ''host.example.com/path'',
              query = [], fragment = []\<rparr>
     \<and> validate_gateway chk ''host.example.com/path'' = Inr ''https://host.example.com/path''"
  using gateway_path_branch [OF assms] assms(3)
    gateway_path_branch [OF urlsplit_example_path]
  by (simp add: urlunsplit_https urlsplit_example_path)

theorem gateway_path_as_host_witness:
  "urlsplit no_checks ''gateway.example.com/extra'' =
     Inr \<lparr>scheme = [], netloc = [], path = ''gateway.example.com/extra'',
          query = [], fragment = []\<rparr>
   \<and> validate_gateway no_checks ''gateway.example.com/extra'' =
     Inr ''https://gateway.example.com/extra''"
proof -
  let ?c = "\<lparr>scheme = [], netloc = [], path = ''gateway.example.com/extra'',
          query = [], fragment = []\<rparr>"
  have h: "urlsplit no_checks ''gateway.example.com/extra'' = Inr ?c"
    by code_simp
  have n: "netloc ?c = []" by simp
  have p: "path ?c \<noteq> []" by simp
  from gateway_path_as_host [OF h n p] h show ?thesis by simp
qed

text \<open>
  C6. \<open>validate_gateway\<close> raises exactly when the parse yields neither a network location
  nor a path: when the parse gives both empty, the validator raises its own error, whose
  message is the URL between backticks and \<^verbatim>\<open>is not a valid URL\<close>; when the parser
  itself raises, it yields nothing and its error is passed on. The empty string is
  rejected.
\<close>

theorem gateway_raises_iff:
  "((\<exists>e. validate_gateway chk url = Inl e) \<longleftrightarrow>
      \<not> (\<exists>c. urlsplit chk url = Inr c \<and> (netloc c \<noteq> [] \<or> path c \<noteq> [])))
   \<and> (urlsplit chk url = Inr c \<and> netloc c = [] \<and> path c = [] \<longrightarrow>
        validate_gateway chk url =
          Inl (ValueError ([backtick] @ url @ [backtick] @ '' is not a valid URL'')))
   \<and> validate_gateway chk [] =
        Inl (ValueError ([backtick] @ [] @ [backtick] @ '' is not a valid URL''))"
proof (intro conjI)
  show "(\<exists>e. validate_gateway chk url = Inl e) \<longleftrightarrow>
      \<not> (\<exists>c. urlsplit chk url = Inr c \<and> (netloc c \<noteq> [] \<or> path c \<noteq> []))"
    by (cases "urlsplit chk url") (auto simp: validate_gateway_def)
  show "urlsplit chk url = Inr c \<and> netloc c = [] \<and> path c = [] \<longrightarrow>
        validate_gateway chk url =
          Inl (ValueError ([backtick] @ url @ [backtick] @ '' is not a valid URL''))"
    by (simp add: validate_gateway_def)
  show "validate_gateway chk [] =
        Inl (ValueError ([backtick] @ [] @ [backtick] @ '' is not a valid URL''))"
    by (simp add: validate_gateway_def urlsplit_empty)
qed

theorem gateway_raises_iff_witness:
  "urlsplit no_checks ''#top'' =
     Inr \<lparr>scheme = [], netloc = [], path = [], query = [], fragment = ''top''\<rparr>
   \<and> validate_gateway no_checks ''#top'' =
     Inl (ValueError ([backtick] @ ''#top'' @ [backtick] @ '' is not a valid URL''))"
proof -
  let ?c = "\<lparr>scheme = [], netloc = [], path = [], query = [], fragment = ''top''\<rparr>"
  have h: "urlsplit no_checks ''#top'' = Inr ?c"
    by code_simp
  from gateway_raises_iff [of no_checks "''#top''" ?c] h show ?thesis by simp
qed

text \<open>
  C8. A URL that \<open>validate_gateway\<close> returns starts with \<^verbatim>\<open>https://\<close> and goes on after
  it, and it holds no question mark and no hash sign, so it has no query and no
  fragment; whenever it parses, its scheme is \<^verbatim>\<open>https\<close> and its query and fragment are
  empty.
\<close>

theorem gateway_result_is_https_url:
  assumes "validate_gateway chk url = Inr r"
  shows "prefix ''https://'' r \<and> 8 < length r
     \<and> CHR ''?'' \<notin> set r \<and> CHR ''#'' \<notin> set r
     \<and> (\<forall>c. urlsplit chk r = Inr c \<longrightarrow>
           scheme c = ''https'' \<and> query c = [] \<and> fragment c = [])"
proof -
  from assms obtain b where r: "r = ''https://'' @ b" and b: "b \<noteq> []"
    and ch: "\<forall>x\<in>set b. x \<noteq> CHR ''?'' \<and> x \<noteq> CHR ''#'' \<and> \<not> unsafe_byte x"
    by (rule gateway_result_body)
  have 1: "prefix ''https://'' r" unfolding r by (rule prefixI) simp
  have 2: "8 < length r" using b by (simp add: r)
  have 3: "CHR ''?'' \<notin> set r \<and> CHR ''#'' \<notin> set r" using ch by (auto simp: r)
  have 4: "\<forall>c. urlsplit chk r = Inr c \<longrightarrow>
           scheme c = ''https'' \<and> query c = [] \<and> fragment c = []"
    unfolding r urlsplit_https [OF ch] by (auto split: option.splits)
  from 1 2 3 4 show ?thesis by blast
qed

theorem gateway_result_is_https_url_witness:
  "validate_gateway no_checks ''ftp://host.example.com/path?x=1#frag'' =
     Inr ''https://host.example.com/path''
   \<and> prefix ''https://'' ''https://host.example.com/path''
   \<and> urlsplit no_checks ''https://host.example.com/path'' =
     Inr \<lparr>scheme = ''https'', netloc = ''host.example.com'', path = ''/path'',
          query = [], fragment = []\<rparr>"
proof -
  have h: "validate_gateway no_checks ''ftp://host.example.com/path?x=1#frag'' =
     Inr ''https://host.example.com/path''"
    by code_simp
  have u: "urlsplit no_checks ''https://host.example.com/path'' =
     Inr \<lparr>scheme = ''https'', netloc = ''host.example.com'', path = ''/path'',
          query = [], fragment = []\<rparr>"
    by code_simp
  from gateway_result_is_https_url [OF h] h u show ?thesis by blast
qed

text \<open>
  C9. When the parse of \<open>u\<close> yields a network location, \<open>validate_gateway\<close> returns a
  URL on which it returns that same URL: it is idempotent there.
\<close>

theorem gateway_idempotent_netloc:
  assumes "urlsplit chk u = Inr c" and "netloc c \<noteq> []"
  shows "\<exists>r. validate_gateway chk u = Inr r \<and> validate_gateway chk r = Inr r"
proof -
  let ?b = "netloc c @ path c"
  have g: "validate_gateway chk u = Inr (''https://'' @ ?b)"
    using gateway_netloc_branch [OF assms] .
  have ch: "\<forall>x\<in>set ?b. x \<noteq> CHR ''?'' \<and> x \<noteq> CHR ''#'' \<and> \<not> unsafe_byte x"
    using urlsplit_path_chars [OF assms(1)] urlsplit_netloc_chars [OF assms(1)]
    by (auto simp: netloc_delim_def)
  have ns: "\<forall>x\<in>set (netloc c). x \<noteq> CHR ''/''"
    using urlsplit_netloc_chars [OF assms(1)] by (auto simp: netloc_delim_def)
  have all: "takeWhile (\<lambda>x. x \<noteq> CHR ''/'') (netloc c) = netloc c"
    using ns by (simp add: takeWhile_eq_all_conv)
  have tw: "takeWhile (\<lambda>x. x \<noteq> CHR ''/'') ?b = netloc c"
  proof (cases "path c")
    case Nil
    then show ?thesis using all by simp
  next
    case (Cons a t)
    with urlsplit_path_after_netloc [OF assms] have a: "a = CHR ''/''" by simp
    have "takeWhile (\<lambda>x. x \<noteq> CHR ''/'') (netloc c @ a # t)
        = takeWhile (\<lambda>x. x \<noteq> CHR ''/'') (netloc c)"
      by (rule takeWhile_tail) (simp add: a)
    then show ?thesis using all by (simp add: Cons)
  qed
  have ne: "?b \<noteq> []" using assms(2) by simp
  have "validate_gateway chk (''https://'' @ ?b) = Inr (''https://'' @ ?b)"
    unfolding gateway_https [OF ne ch] tw urlsplit_check [OF assms] by simp
  with g show ?thesis by blast
qed

theorem gateway_idempotent_netloc_witness:
  "urlsplit no_checks ''http://host.example.com/path'' =
     Inr \<lparr>scheme = ''http'', netloc = ''host.example.com'', path = ''/path'',
          query = [], fragment = []\<rparr>
   \<and> validate_gateway no_checks ''http://host.example.com/path'' =
     Inr ''https://host.example.com/path''
   \<and> validate_gateway no_checks ''https://host.example.com/path'' =
     Inr ''https://host.example.com/path''"
proof -
  let ?c = "\<lparr>scheme = ''http'', netloc = ''host.example.com'', path = ''/path'',
          query = [], fragment = []\<rparr>"
  have h: "urlsplit no_checks ''http://host.example.com/path'' = Inr ?c"
    by code_simp
  have n: "netloc ?c \<noteq> []" by simp
  have g: "validate_gateway no_checks ''http://host.example.com/path'' =
     Inr ''https://host.example.com/path''"
    by code_simp
  from gateway_idempotent_netloc [OF h n] g h show ?thesis by auto
qed

text \<open>
  C10, as the code has it. On a URL \<open>r\<close> that \<open>validate_gateway\<close> returned, a second call
  returns \<open>r\<close> again whenever the parser accepts \<open>r\<close>, and passes on the parser's error
  otherwise. The parser accepts \<open>r\<close> in particular when \<open>r\<close> is ASCII and holds no square
  bracket. It rejects an authority in which a bracket is unpaired or encloses no IP
  literal, or whose NFKC normal form holds a delimiter, and the branch that takes the
  path for the host can build such an authority.
\<close>

theorem gateway_idempotent_or_rejected:
  assumes "validate_gateway chk u = Inr r"
  shows "(\<forall>c. urlsplit chk r = Inr c \<longrightarrow> validate_gateway chk r = Inr r)
     \<and> (\<forall>e. urlsplit chk r = Inl e \<longrightarrow> validate_gateway chk r = Inl e)
     \<and> (list_all isascii r \<and> CHR ''['' \<notin> set r \<and> CHR '']'' \<notin> set r \<longrightarrow>
           validate_gateway chk r = Inr r)"
proof -
  from assms obtain b where r: "r = ''https://'' @ b" and b: "b \<noteq> []"
    and ch: "\<forall>x\<in>set b. x \<noteq> CHR ''?'' \<and> x \<noteq> CHR ''#'' \<and> \<not> unsafe_byte x"
    by (rule gateway_result_body)
  let ?n = "takeWhile (\<lambda>x. x \<noteq> CHR ''/'') b"
  have 1: "validate_gateway chk r = Inr r" if "urlsplit chk r = Inr c" for c
    using that unfolding r gateway_https [OF b ch] urlsplit_https [OF ch]
    by (cases "netloc_error chk ?n") auto
  have 2: "validate_gateway chk r = Inl e" if "urlsplit chk r = Inl e" for e
    using that by (simp add: validate_gateway_def)
  have 3: "validate_gateway chk r = Inr r"
    if "list_all isascii r \<and> CHR ''['' \<notin> set r \<and> CHR '']'' \<notin> set r"
  proof -
    from that have "CHR ''['' \<notin> set ?n \<and> CHR '']'' \<notin> set ?n"
      by (auto simp: r dest: set_takeWhileD)
    moreover from that have "list_all isascii ?n"
      by (auto simp: r list_all_iff dest: set_takeWhileD)
    ultimately have "netloc_error chk ?n = None"
      by (simp add: netloc_error_def check_brackets_def checknetloc_def)
    then show ?thesis unfolding r gateway_https [OF b ch] by simp
  qed
  from 1 2 3 show ?thesis by blast
qed

text \<open>
  The input \<^verbatim>\<open>[\<close> is accepted through the path-as-host branch and gives \<^verbatim>\<open>https://[\<close>,
  which the parser rejects: the second call raises.
\<close>

theorem gateway_bracket_not_idempotent:
  "validate_gateway no_checks ''['' = Inr ''https://[''
   \<and> validate_gateway no_checks ''https://['' = Inl (ValueError ''Invalid IPv6 URL'')"
  by code_simp

theorem gateway_idempotent_or_rejected_witness:
  "validate_gateway no_checks ''gateway.example.com/extra'' =
     Inr ''https://gateway.example.com/extra''
   \<and> validate_gateway no_checks ''https://gateway.example.com/extra'' =
     Inr ''https://gateway.example.com/extra''"
proof -
  have h: "validate_gateway no_checks ''gateway.example.com/extra'' =
     Inr ''https://gateway.example.com/extra''"
    by code_simp
  have b: "list_all isascii ''https://gateway.example.com/extra''
     \<and> CHR ''['' \<notin> set ''https://gateway.example.com/extra''
     \<and> CHR '']'' \<notin> set ''https://gateway.example.com/extra''"
    by code_simp
  from gateway_idempotent_or_rejected [OF h] b h show ?thesis by blast
qed

end
